theory Spec2Isabelle
  imports Main "HOL-Library.Sublist"
begin

section \<open>The merchant admin shell (AdminLayout.tsx)\<close>

text \<open>
  A shallow embedding of the React component \<open>AdminLayout\<close>: the navigation table, the
  component state held in \<open>useState\<close> cells, the two effects (resize listener and
  route-change auto-expand), the click handlers, the authorisation guard and the part of
  the rendered tree that depends on route, state and auth snapshot. Styling, icons'
  rendering and the static notification entries are presentation and are left out of
  the rendered view.
\<close>

subsection \<open>JavaScript values used by the component\<close>

text \<open>
  A property that may be absent is an \<open>option\<close>: \<open>None\<close> is JavaScript's
  \<open>undefined\<close>. \<open>truthy\<close> is the coercion applied by \<open>!x\<close>, \<open>x || false\<close> and
  \<open>if (x)\<close> to a boolean-or-undefined value.
\<close>

fun truthy :: "bool option \<Rightarrow> bool" where
  "truthy None = False"
| "truthy (Some b) = b"

text \<open>
  \<open>s.startsWith(p)\<close>: the code units of \<open>p\<close> are the first code units of \<open>s\<close>.
\<close>

fun startsWith :: "string \<Rightarrow> string \<Rightarrow> bool" where
  "startsWith s [] = True"
| "startsWith [] (c # p) = False"
| "startsWith (x # s) (c # p) = (x = c \<and> startsWith s p)"

text \<open>
  The argument of \<open>startsWith\<close> is converted with \<open>ToString\<close>; an absent property
  becomes the text \<open>undefined\<close>.
\<close>

fun searchString :: "string option \<Rightarrow> string" where
  "searchString None = ''undefined''"
| "searchString (Some p) = p"

subsection \<open>Navigation table\<close>

datatype icon =
    ChartBarIcon | CubeIcon | ListBulletIcon | AdjustmentsHorizontalIcon
  | ShoppingBagIcon | TagIcon | UserGroupIcon | CreditCardIcon | StarIcon
  | DocumentChartBarIcon | ChatBubbleLeftIcon | CogIcon

text \<open>
  An entry of \<open>navigationItems\<close> is an object literal with a \<open>name\<close>, an \<open>icon\<close>
  and the properties \<open>path\<close> and \<open>submenu\<close>, each present or absent.
\<close>

datatype NavigationItem =
  NavigationItem
    (name: string)
    (path: "string option")
    (icon: icon)
    (submenu: "NavigationItem list option")

definition flat :: "string \<Rightarrow> string \<Rightarrow> icon \<Rightarrow> NavigationItem" where
  "flat n p i = NavigationItem n (Some p) i None"

definition navigationItems :: "NavigationItem list" where
  "navigationItems =
    [ flat ''Dashboard'' ''/business/dashboard'' ChartBarIcon,
      NavigationItem ''Catalog'' None CubeIcon (Some
        [ flat ''Products'' ''/business/catalog/products'' CubeIcon,
          flat ''Categories'' ''/business/catalog/categories'' ListBulletIcon,
          flat ''Attributes'' ''/business/catalog/attributes'' AdjustmentsHorizontalIcon ]),
      flat ''Orders'' ''/business/orders'' ShoppingBagIcon,
      flat ''Inventory'' ''/business/inventory'' TagIcon,
      flat ''Customers'' ''/business/customers'' UserGroupIcon,
      flat ''Payments'' ''/business/payments'' CreditCardIcon,
      flat ''Promotions'' ''/business/promotions'' TagIcon,
      flat ''Reviews'' ''/business/reviews'' StarIcon,
      flat ''Reports'' ''/business/reports'' DocumentChartBarIcon,
      flat ''Support'' ''/business/support'' ChatBubbleLeftIcon,
      flat ''Settings'' ''/business/settings'' CogIcon ]"

subsection \<open>Collaborators: auth context and router\<close>

text \<open>
  The values read from \<open>useAuth()\<close>; the context lives outside this component, so a
  field it does not publish reads as \<open>undefined\<close>.
\<close>

record AuthSnapshot =
  isAuthenticated :: "bool option"
  isMerchant :: "bool option"
  isMerchantVerified :: "bool option"

record Location =
  pathname :: string
  search :: string
  hash :: string

text \<open>Calls the component issues to its collaborators, in the order issued.\<close>

datatype Effect = CallLogout | CallNavigate string

subsection \<open>Component state\<close>

record ShellState =
  isSidebarOpen :: bool
  isProfileMenuOpen :: bool
  isNotificationsOpen :: bool
  isMobile :: bool
  expandedMenus :: "string \<rightharpoonup> bool"

text \<open>The initial values of the \<open>useState\<close> cells, at viewport width \<open>innerWidth\<close>.\<close>

definition initialState :: "int \<Rightarrow> ShellState" where
  "initialState innerWidth =
    \<lparr> isSidebarOpen = False,
      isProfileMenuOpen = False,
      isNotificationsOpen = False,
      isMobile = (innerWidth < 768),
      expandedMenus = [''Catalog'' \<mapsto> True] \<rparr>"

subsection \<open>Effects and handlers\<close>

definition handleResize :: "int \<Rightarrow> ShellState \<Rightarrow> ShellState" where
  "handleResize innerWidth s =
    (let s1 = s\<lparr>isMobile := (innerWidth < 768)\<rparr>
     in if innerWidth \<ge> 768 then s1\<lparr>isSidebarOpen := True\<rparr> else s1)"

text \<open>
  Active resolution of a top-level entry (\<open>isMenuActive\<close>) and of a sub-entry
  (\<open>isSubItemActive\<close>).
\<close>

definition isSubItemActive :: "string \<Rightarrow> NavigationItem \<Rightarrow> bool" where
  "isSubItemActive currentPath subItem = startsWith currentPath (searchString (path subItem))"

definition isMenuActive :: "string \<Rightarrow> NavigationItem \<Rightarrow> bool" where
  "isMenuActive currentPath item =
    (case submenu item of
       Some subs \<Rightarrow> list_ex (\<lambda>subItem. startsWith currentPath (searchString (path subItem))) subs
     | None \<Rightarrow> Some currentPath = path item)"

text \<open>
  The route-change effect: \<open>forEach\<close> over the entries, queueing for each entry with an
  active submenu the updater \<open>prev => ({ ...prev, [item.name]: true })\<close>; the updaters
  run in the order queued.
\<close>

definition autoExpandItem :: "string \<Rightarrow> (string \<rightharpoonup> bool) \<Rightarrow> NavigationItem \<Rightarrow> (string \<rightharpoonup> bool)" where
  "autoExpandItem currentPath prev item =
    (case submenu item of
       Some subs \<Rightarrow>
         if list_ex (\<lambda>subItem. startsWith currentPath (searchString (path subItem))) subs
         then prev(name item \<mapsto> True) else prev
     | None \<Rightarrow> prev)"

definition autoExpand :: "NavigationItem list \<Rightarrow> string \<Rightarrow> (string \<rightharpoonup> bool) \<Rightarrow> (string \<rightharpoonup> bool)" where
  "autoExpand items currentPath prev = foldl (autoExpandItem currentPath) prev items"

definition routeEffect :: "string \<Rightarrow> ShellState \<Rightarrow> ShellState" where
  "routeEffect currentPath s = s\<lparr>expandedMenus := autoExpand navigationItems currentPath (expandedMenus s)\<rparr>"

definition toggleSidebar :: "ShellState \<Rightarrow> ShellState" where
  "toggleSidebar s = s\<lparr>isSidebarOpen := \<not> isSidebarOpen s\<rparr>"

definition toggleSubmenu :: "string \<Rightarrow> ShellState \<Rightarrow> ShellState" where
  "toggleSubmenu n s = s\<lparr>expandedMenus := (expandedMenus s)(n \<mapsto> \<not> truthy (expandedMenus s n))\<rparr>"

definition toggleNotifications :: "ShellState \<Rightarrow> ShellState" where
  "toggleNotifications s = s\<lparr>isNotificationsOpen := \<not> isNotificationsOpen s\<rparr>"

definition toggleProfileMenu :: "ShellState \<Rightarrow> ShellState" where
  "toggleProfileMenu s = s\<lparr>isProfileMenuOpen := \<not> isProfileMenuOpen s\<rparr>"

definition handleLogout :: "ShellState \<Rightarrow> ShellState \<times> Effect list" where
  "handleLogout s = (s, [CallLogout, CallNavigate ''/business-login''])"

text \<open>Mounting: the initial cells, then both effects run once.\<close>

definition mount :: "int \<Rightarrow> string \<Rightarrow> ShellState" where
  "mount innerWidth currentPath = routeEffect currentPath (handleResize innerWidth (initialState innerWidth))"

subsection \<open>Events\<close>

datatype Event =
    Resize int
  | RouteChange string
  | ClickHamburger
  | ClickClose
  | ClickBackdrop
  | ClickSection string
  | ClickNotifications
  | ClickProfile
  | ClickSignOut

fun dispatch :: "Event \<Rightarrow> ShellState \<Rightarrow> ShellState \<times> Effect list" where
  "dispatch (Resize w) s = (handleResize w s, [])"
| "dispatch (RouteChange p) s = (routeEffect p s, [])"
| "dispatch ClickHamburger s = (toggleSidebar s, [])"
| "dispatch ClickClose s = (toggleSidebar s, [])"
| "dispatch ClickBackdrop s = (toggleSidebar s, [])"
| "dispatch (ClickSection n) s = (toggleSubmenu n s, [])"
| "dispatch ClickNotifications s = (toggleNotifications s, [])"
| "dispatch ClickProfile s = (toggleProfileMenu s, [])"
| "dispatch ClickSignOut s = handleLogout s"

text \<open>Events are handled one at a time, each to completion, in the order they arrive.\<close>

fun run :: "Event list \<Rightarrow> ShellState \<Rightarrow> ShellState" where
  "run [] s = s"
| "run (e # es) s = run es (fst (dispatch e s))"

subsection \<open>Rendering\<close>

datatype SubItemView = SubItemView (subLabel: string) (subTo: "string option") (subActive: bool)

datatype ItemView =
    SectionView (label: string) (active: bool) (expanded: bool) (subViews: "SubItemView list")
  | LinkView (label: string) (linkTo: "string option") (active: bool)

record ShellView =
  sidebarShown :: bool
  closeButton :: bool
  nav :: "ItemView list"
  notificationsPanel :: bool
  profileMenu :: bool
  backdrop :: bool

datatype 'c Rendered =
    Navigate (navTo: string) (navStateFrom: Location) (navReplace: bool)
  | Shell ShellView 'c

definition renderSubItem :: "string \<Rightarrow> NavigationItem \<Rightarrow> SubItemView" where
  "renderSubItem currentPath subItem =
    SubItemView (name subItem) (path subItem) (isSubItemActive currentPath subItem)"

definition renderItem :: "string \<Rightarrow> (string \<rightharpoonup> bool) \<Rightarrow> NavigationItem \<Rightarrow> ItemView" where
  "renderItem currentPath expandedMenus' item =
    (let isExpanded = truthy (expandedMenus' (name item))
     in case submenu item of
          Some subs \<Rightarrow>
            SectionView (name item) (isMenuActive currentPath item) isExpanded
              (if isExpanded then map (renderSubItem currentPath) subs else [])
        | None \<Rightarrow> LinkView (name item) (path item) (isMenuActive currentPath item))"

definition renderShell :: "Location \<Rightarrow> ShellState \<Rightarrow> ShellView" where
  "renderShell location s =
    \<lparr> sidebarShown = isSidebarOpen s,
      closeButton = isMobile s,
      nav = map (renderItem (pathname location) (expandedMenus s)) navigationItems,
      notificationsPanel = isNotificationsOpen s,
      profileMenu = isProfileMenuOpen s,
      backdrop = (isMobile s \<and> isSidebarOpen s) \<rparr>"

definition AdminLayout :: "AuthSnapshot \<Rightarrow> Location \<Rightarrow> ShellState \<Rightarrow> 'c \<Rightarrow> 'c Rendered" where
  "AdminLayout auth location s outlet =
    (if \<not> truthy (isAuthenticated auth) \<or> \<not> truthy (isMerchant auth)
     then Navigate ''/business-login'' location True
     else Shell (renderShell location s) outlet)"

section \<open>Properties\<close>

subsection \<open>Auxiliary facts\<close>

lemma truthy_iff: "truthy x \<longleftrightarrow> x = Some True"
  by (cases x) simp_all




subsection \<open>The authorisation guard\<close>

text \<open>
  C1. For every auth snapshot, location and component state: when \<open>isAuthenticated\<close> is
  false or \<open>isMerchant\<close> is false, \<open>AdminLayout\<close> returns the redirect
  \<open><Navigate to="/business-login" state={{ from: location }} replace />\<close>, that is a
  replace-navigation to the login route carrying the current location, and nothing of the
  shell; when both are true it returns the shell around the nested content (the outlet).
\<close>

theorem AdminLayout_guard:
  "((isAuthenticated auth = Some False \<or> isMerchant auth = Some False) \<longrightarrow>
      AdminLayout auth location s outlet = Navigate ''/business-login'' location True)
   \<and> ((isAuthenticated auth = Some True \<and> isMerchant auth = Some True) \<longrightarrow>
      AdminLayout auth location s outlet = Shell (renderShell location s) outlet)"
  by (auto simp: AdminLayout_def)

theorem AdminLayout_guard_witness:
  "AdminLayout \<lparr>isAuthenticated = Some False, isMerchant = Some True, isMerchantVerified = Some True\<rparr>
      \<lparr>pathname = ''/business/orders'', search = [], hash = []\<rparr> (initialState 1024) ()
     = Navigate ''/business-login'' \<lparr>pathname = ''/business/orders'', search = [], hash = []\<rparr> True
   \<and> AdminLayout \<lparr>isAuthenticated = Some True, isMerchant = Some False, isMerchantVerified = Some True\<rparr>
      \<lparr>pathname = ''/business/orders'', search = [], hash = []\<rparr> (initialState 1024) ()
     = Navigate ''/business-login'' \<lparr>pathname = ''/business/orders'', search = [], hash = []\<rparr> True
   \<and> AdminLayout \<lparr>isAuthenticated = Some True, isMerchant = Some True, isMerchantVerified = Some True\<rparr>
      \<lparr>pathname = ''/business/orders'', search = [], hash = []\<rparr> (initialState 1024) ()
     = Shell (renderShell \<lparr>pathname = ''/business/orders'', search = [], hash = []\<rparr> (initialState 1024)) ()"
  using
    AdminLayout_guard [of "\<lparr>isAuthenticated = Some False, isMerchant = Some True, isMerchantVerified = Some True\<rparr>"
      "\<lparr>pathname = ''/business/orders'', search = [], hash = []\<rparr>" "initialState 1024" "()"]
    AdminLayout_guard [of "\<lparr>isAuthenticated = Some True, isMerchant = Some False, isMerchantVerified = Some True\<rparr>"
      "\<lparr>pathname = ''/business/orders'', search = [], hash = []\<rparr>" "initialState 1024" "()"]
    AdminLayout_guard [of "\<lparr>isAuthenticated = Some True, isMerchant = Some True, isMerchantVerified = Some True\<rparr>"
      "\<lparr>pathname = ''/business/orders'', search = [], hash = []\<rparr>" "initialState 1024" "()"]
  by simp

text \<open>
  C2. The guard fails closed: when \<open>isAuthenticated\<close> or \<open>isMerchant\<close> is undefined
  (absent from the snapshot), \<open>AdminLayout\<close> returns the redirect to the login route; and
  whenever it returns the shell, both fields are present and true.
\<close>

theorem AdminLayout_fail_closed:
  "((isAuthenticated auth = None \<or> isMerchant auth = None) \<longrightarrow>
      AdminLayout auth location s outlet = Navigate ''/business-login'' location True)
   \<and> (AdminLayout auth location s outlet = Shell view content \<longrightarrow>
      isAuthenticated auth = Some True \<and> isMerchant auth = Some True)"
proof (intro conjI impI)
  assume "isAuthenticated auth = None \<or> isMerchant auth = None"
  then show "AdminLayout auth location s outlet = Navigate ''/business-login'' location True"
    by (auto simp: AdminLayout_def)
next
  assume shell: "AdminLayout auth location s outlet = Shell view content"
  then have "truthy (isAuthenticated auth)" and "truthy (isMerchant auth)"
    by (auto simp: AdminLayout_def split: if_splits)
  then show "isAuthenticated auth = Some True" and "isMerchant auth = Some True"
    by (simp_all add: truthy_iff)
qed

theorem AdminLayout_fail_closed_witness:
  "AdminLayout \<lparr>isAuthenticated = None, isMerchant = Some True, isMerchantVerified = None\<rparr>
      \<lparr>pathname = ''/business/dashboard'', search = [], hash = []\<rparr> (initialState 1024) ()
     = Navigate ''/business-login'' \<lparr>pathname = ''/business/dashboard'', search = [], hash = []\<rparr> True
   \<and> AdminLayout \<lparr>isAuthenticated = Some True, isMerchant = None, isMerchantVerified = None\<rparr>
      \<lparr>pathname = ''/business/dashboard'', search = [], hash = []\<rparr> (initialState 1024) ()
     = Navigate ''/business-login'' \<lparr>pathname = ''/business/dashboard'', search = [], hash = []\<rparr> True"
  using
    AdminLayout_fail_closed [of "\<lparr>isAuthenticated = None, isMerchant = Some True, isMerchantVerified = None\<rparr>"
      "\<lparr>pathname = ''/business/dashboard'', search = [], hash = []\<rparr>" "initialState 1024" "()"]
    AdminLayout_fail_closed [of "\<lparr>isAuthenticated = Some True, isMerchant = None, isMerchantVerified = None\<rparr>"
      "\<lparr>pathname = ''/business/dashboard'', search = [], hash = []\<rparr>" "initialState 1024" "()"]
  by simp

subsection \<open>Active resolution\<close>







subsection \<open>Route-change auto-expand\<close>

lemma autoExpandItem_apply:
  "autoExpandItem p m item k =
     (if submenu item \<noteq> None \<and> name item = k \<and> isMenuActive p item then Some True else m k)"
  by (cases "submenu item") (auto simp: autoExpandItem_def isMenuActive_def)

lemma autoExpand_apply:
  "autoExpand items p m k =
     (if \<exists>item\<in>set items. submenu item \<noteq> None \<and> name item = k \<and> isMenuActive p item
      then Some True else m k)"
  unfolding autoExpand_def
proof (induction items arbitrary: m)
  case Nil
  show ?case by simp
next
  case (Cons item items)
  have "foldl (autoExpandItem p) m (item # items) k
          = foldl (autoExpandItem p) (autoExpandItem p m item) items k"
    by simp
  also have "\<dots> = (if \<exists>i\<in>set items. submenu i \<noteq> None \<and> name i = k \<and> isMenuActive p i
                    then Some True else autoExpandItem p m item k)"
    by (rule Cons.IH)
  also have "\<dots> = (if \<exists>i\<in>set (item # items). submenu i \<noteq> None \<and> name i = k \<and> isMenuActive p i
                    then Some True else m k)"
    by (auto simp: autoExpandItem_apply)
  finally show ?case .
qed

lemma routeEffect_entry:
  "expandedMenus (routeEffect p s) k =
     (if \<exists>item\<in>set navigationItems. submenu item \<noteq> None \<and> name item = k \<and> isMenuActive p item
      then Some True else expandedMenus s k)"
  by (simp add: routeEffect_def autoExpand_apply)

lemma dispatch_keeps_expanded:
  assumes "expandedMenus s k = Some True" and "e \<noteq> ClickSection k"
  shows "expandedMenus (fst (dispatch e s)) k = Some True"
proof (cases e)
  case (Resize w)
  with assms show ?thesis by (simp add: handleResize_def Let_def)
next
  case (RouteChange p)
  with assms show ?thesis by (simp add: routeEffect_entry)
next
  case (ClickSection n)
  with assms show ?thesis by (simp add: toggleSubmenu_def)
qed (use assms in \<open>simp_all add: toggleSidebar_def toggleNotifications_def toggleProfileMenu_def handleLogout_def\<close>)

lemma run_keeps_expanded:
  "expandedMenus s k = Some True \<Longrightarrow> ClickSection k \<notin> set es \<Longrightarrow>
     expandedMenus (run es s) k = Some True"
proof (induction es arbitrary: s)
  case Nil
  then show ?case by simp
next
  case (Cons e es)
  from Cons.prems have "e \<noteq> ClickSection k" and "ClickSection k \<notin> set es" by auto
  with Cons.prems(1) Cons.IH show ?case
    by (simp add: dispatch_keeps_expanded)
qed

text \<open>
  C4. The route-change effect is monotone on the expansion state. For every state and
  path it changes nothing but \<open>expandedMenus\<close>, where it sets to true the entry of every
  section that is active for the path and leaves every other entry as it was; so no entry
  becomes false that was not false before. Hence an entry that a route change has made
  true is still true after a later route change, and after any run of events that has no
  click on that section's own toggle.
\<close>

theorem autoExpand_monotone:
  "(routeEffect p s =
      s\<lparr>expandedMenus := (\<lambda>k.
          if \<exists>item\<in>set navigationItems. submenu item \<noteq> None \<and> name item = k \<and> isMenuActive p item
          then Some True else expandedMenus s k)\<rparr>)
   \<and> (expandedMenus (routeEffect p s) k = Some False \<longrightarrow> expandedMenus s k = Some False)
   \<and> (expandedMenus (routeEffect p s) k = Some True \<longrightarrow>
        expandedMenus (routeEffect p' (routeEffect p s)) k = Some True)
   \<and> (expandedMenus (routeEffect p s) k = Some True \<and> ClickSection k \<notin> set es \<longrightarrow>
        expandedMenus (run es (routeEffect p s)) k = Some True)"
proof (intro conjI impI)
  have "autoExpand navigationItems p (expandedMenus s) = (\<lambda>k.
          if \<exists>item\<in>set navigationItems. submenu item \<noteq> None \<and> name item = k \<and> isMenuActive p item
          then Some True else expandedMenus s k)"
    by (rule ext) (rule autoExpand_apply)
  then show "routeEffect p s =
      s\<lparr>expandedMenus := (\<lambda>k.
          if \<exists>item\<in>set navigationItems. submenu item \<noteq> None \<and> name item = k \<and> isMenuActive p item
          then Some True else expandedMenus s k)\<rparr>"
    by (simp add: routeEffect_def)
next
  assume "expandedMenus (routeEffect p s) k = Some False"
  then show "expandedMenus s k = Some False"
    by (simp add: routeEffect_entry split: if_splits)
next
  assume "expandedMenus (routeEffect p s) k = Some True"
  then show "expandedMenus (routeEffect p' (routeEffect p s)) k = Some True"
    by (simp add: routeEffect_entry [of p'])
next
  assume "expandedMenus (routeEffect p s) k = Some True \<and> ClickSection k \<notin> set es"
  then show "expandedMenus (run es (routeEffect p s)) k = Some True"
    by (simp add: run_keeps_expanded)
qed

lemma navigationItems_sections:
  "(\<exists>item\<in>set navigationItems. submenu item \<noteq> None \<and> name item = k \<and> isMenuActive p item)
     \<longleftrightarrow> (k = ''Catalog'' \<and> (startsWith p ''/business/catalog/products''
           \<or> startsWith p ''/business/catalog/categories'' \<or> startsWith p ''/business/catalog/attributes''))"
  by (auto simp: navigationItems_def flat_def isMenuActive_def)

theorem autoExpand_monotone_witness:
  "expandedMenus (toggleSubmenu ''Catalog'' (initialState 1024)) ''Catalog'' = Some False
   \<and> expandedMenus (routeEffect ''/business/catalog/products''
        (toggleSubmenu ''Catalog'' (initialState 1024))) ''Catalog'' = Some True
   \<and> expandedMenus (routeEffect ''/business/orders'' (routeEffect ''/business/catalog/products''
        (toggleSubmenu ''Catalog'' (initialState 1024)))) ''Catalog'' = Some True
   \<and> expandedMenus (run [RouteChange ''/business/orders'', Resize 500, ClickHamburger]
        (routeEffect ''/business/catalog/products''
          (toggleSubmenu ''Catalog'' (initialState 1024)))) ''Catalog'' = Some True"
proof -
  let ?s = "toggleSubmenu ''Catalog'' (initialState 1024)"
  let ?p = "''/business/catalog/products''"
  have before: "expandedMenus ?s ''Catalog'' = Some False"
    by (simp add: toggleSubmenu_def initialState_def)
  have after: "expandedMenus (routeEffect ?p ?s) ''Catalog'' = Some True"
    by (simp only: routeEffect_entry navigationItems_sections) simp
  have notin: "ClickSection ''Catalog'' \<notin> set [RouteChange ''/business/orders'', Resize 500, ClickHamburger]"
    by simp
  from before after notin
    autoExpand_monotone [of ?p ?s "''Catalog''" "''/business/orders''"
      "[RouteChange ''/business/orders'', Resize 500, ClickHamburger]"]
  show ?thesis by blast
qed

subsection \<open>A section collapsed by hand\<close>

text \<open>
  A click on the "Catalog" button after mounting at a route under one of its sub-entries
  leaves the entry false: the route has not changed, so the effect does not run again,
  and the section is rendered active, collapsed and without sub-entry links.
\<close>

lemma click_after_mount:
  "startsWith R ''/business/catalog/products'' \<or> startsWith R ''/business/catalog/categories''
     \<or> startsWith R ''/business/catalog/attributes'' \<Longrightarrow>
   expandedMenus (run [ClickSection ''Catalog''] (mount w R)) ''Catalog'' = Some False"
proof -
  assume a: "startsWith R ''/business/catalog/products'' \<or> startsWith R ''/business/catalog/categories''
     \<or> startsWith R ''/business/catalog/attributes''"
  have "expandedMenus (mount w R) ''Catalog'' = Some True"
    unfolding mount_def using a by (simp only: routeEffect_entry navigationItems_sections) simp
  then show ?thesis by (simp add: toggleSubmenu_def)
qed



subsection \<open>The route /business/catalog/categories\<close>

lemma catalog_view_at_categories:
  "find (\<lambda>v. label v = ''Catalog'')
        (nav (renderShell \<lparr>pathname = ''/business/catalog/categories'', search = q, hash = h\<rparr> s))
      = Some (SectionView ''Catalog'' True (truthy (expandedMenus s ''Catalog''))
          (if truthy (expandedMenus s ''Catalog'')
           then [ SubItemView ''Products'' (Some ''/business/catalog/products'') False,
                  SubItemView ''Categories'' (Some ''/business/catalog/categories'') True,
                  SubItemView ''Attributes'' (Some ''/business/catalog/attributes'') False ]
           else []))"
  by (simp add: renderShell_def navigationItems_def flat_def renderItem_def renderSubItem_def
        isMenuActive_def isSubItemActive_def)

text \<open>
  C5, as the code has it. At the route \<open>/business/catalog/categories\<close>: of the table's
  entries exactly "Catalog" is active; the expansion entry of "Catalog" is true once the
  route-change effect has run (from any earlier state, and on mounting at any viewport
  width) and stays true through every run of events without a click on "Catalog"; and in
  every state the rendered "Catalog" section is marked active, and is either expanded
  with "Categories" alone marked active ("Products" and "Attributes" are not), or
  collapsed with no sub-entry rendered.
\<close>

theorem categories_route:
  "map name (filter (isMenuActive ''/business/catalog/categories'') navigationItems) = [''Catalog'']
   \<and> expandedMenus (routeEffect ''/business/catalog/categories'' s) ''Catalog'' = Some True
   \<and> expandedMenus (mount w ''/business/catalog/categories'') ''Catalog'' = Some True
   \<and> (ClickSection ''Catalog'' \<notin> set es \<longrightarrow>
        expandedMenus (run es (mount w ''/business/catalog/categories'')) ''Catalog'' = Some True)
   \<and> find (\<lambda>v. label v = ''Catalog'')
        (nav (renderShell \<lparr>pathname = ''/business/catalog/categories'', search = q, hash = h\<rparr> s))
      = Some (SectionView ''Catalog'' True (truthy (expandedMenus s ''Catalog''))
          (if truthy (expandedMenus s ''Catalog'')
           then [ SubItemView ''Products'' (Some ''/business/catalog/products'') False,
                  SubItemView ''Categories'' (Some ''/business/catalog/categories'') True,
                  SubItemView ''Attributes'' (Some ''/business/catalog/attributes'') False ]
           else []))
   \<and> find (\<lambda>v. label v = ''Catalog'')
        (nav (renderShell \<lparr>pathname = ''/business/catalog/categories'', search = q, hash = h\<rparr>
               (routeEffect ''/business/catalog/categories'' s)))
      = Some (SectionView ''Catalog'' True True
          [ SubItemView ''Products'' (Some ''/business/catalog/products'') False,
            SubItemView ''Categories'' (Some ''/business/catalog/categories'') True,
            SubItemView ''Attributes'' (Some ''/business/catalog/attributes'') False ])"
proof -
  let ?p = "''/business/catalog/categories''"
  have active: "map name (filter (isMenuActive ?p) navigationItems) = [''Catalog'']"
    by (simp add: navigationItems_def flat_def isMenuActive_def)
  have entry: "expandedMenus (routeEffect ?p t) ''Catalog'' = Some True" for t
    by (simp only: routeEffect_entry navigationItems_sections) simp
  have mounted: "expandedMenus (mount w ?p) ''Catalog'' = Some True"
    unfolding mount_def by (rule entry)
  have kept: "ClickSection ''Catalog'' \<notin> set es \<longrightarrow>
        expandedMenus (run es (mount w ?p)) ''Catalog'' = Some True"
    using mounted by (simp add: run_keeps_expanded)
  note anyview = catalog_view_at_categories [of q h s]
  have view: "find (\<lambda>v. label v = ''Catalog'')
        (nav (renderShell \<lparr>pathname = ?p, search = q, hash = h\<rparr> (routeEffect ?p s)))
      = Some (SectionView ''Catalog'' True True
          [ SubItemView ''Products'' (Some ''/business/catalog/products'') False,
            SubItemView ''Categories'' (Some ''/business/catalog/categories'') True,
            SubItemView ''Attributes'' (Some ''/business/catalog/attributes'') False ])"
    by (simp only: catalog_view_at_categories entry truthy.simps if_True)
  from active entry mounted kept anyview view show ?thesis by (intro conjI)
qed

theorem categories_route_witness:
  "map name (filter (isMenuActive ''/business/catalog/categories'') navigationItems) = [''Catalog'']
   \<and> expandedMenus (routeEffect ''/business/catalog/categories''
        (toggleSubmenu ''Catalog'' (initialState 500))) ''Catalog'' = Some True
   \<and> expandedMenus (mount 500 ''/business/catalog/categories'') ''Catalog'' = Some True
   \<and> expandedMenus (run [Resize 1024, ClickHamburger] (mount 500 ''/business/catalog/categories''))
        ''Catalog'' = Some True
   \<and> find (\<lambda>v. label v = ''Catalog'')
        (nav (renderShell \<lparr>pathname = ''/business/catalog/categories'', search = [], hash = []\<rparr>
               (routeEffect ''/business/catalog/categories''
                 (toggleSubmenu ''Catalog'' (initialState 500)))))
      = Some (SectionView ''Catalog'' True True
          [ SubItemView ''Products'' (Some ''/business/catalog/products'') False,
            SubItemView ''Categories'' (Some ''/business/catalog/categories'') True,
            SubItemView ''Attributes'' (Some ''/business/catalog/attributes'') False ])"
proof -
  have notin: "ClickSection ''Catalog'' \<notin> set [Resize 1024, ClickHamburger]"
    by simp
  from categories_route [of "toggleSubmenu ''Catalog'' (initialState 500)" 500
      "[Resize 1024, ClickHamburger]" "[]" "[]"] notin
  show ?thesis by blast
qed

text \<open>
  Against C5 as stated: at that route, one click on "Catalog" after mounting leaves the
  entry false and the section collapsed, with "Categories" not marked.
\<close>

theorem categories_route_counterexample:
  "expandedMenus (run [ClickSection ''Catalog''] (mount 500 ''/business/catalog/categories''))
        ''Catalog'' = Some False
   \<and> find (\<lambda>v. label v = ''Catalog'')
        (nav (renderShell \<lparr>pathname = ''/business/catalog/categories'', search = [], hash = []\<rparr>
               (run [ClickSection ''Catalog''] (mount 500 ''/business/catalog/categories''))))
      = Some (SectionView ''Catalog'' True False [])"
proof -
  let ?X = "''/business/catalog/categories''"
  have entry: "expandedMenus (run [ClickSection ''Catalog''] (mount 500 ?X)) ''Catalog'' = Some False"
    by (rule click_after_mount) simp
  have "find (\<lambda>v. label v = ''Catalog'')
        (nav (renderShell \<lparr>pathname = ?X, search = [], hash = []\<rparr>
               (run [ClickSection ''Catalog''] (mount 500 ?X))))
      = Some (SectionView ''Catalog'' True False [])"
    by (simp only: catalog_view_at_categories entry truthy.simps if_False)
  with entry show ?thesis by (intro conjI)
qed

subsection \<open>Resize\<close>

text \<open>
  C6. For every earlier state, a resize to a width of 768px or more leaves the sidebar
  open and the viewport not mobile, whatever the sidebar flag was before; in particular
  after a resize below 768px (which makes the viewport mobile) followed by one to 768px or
  more, the sidebar is open.
\<close>

theorem resize_to_wide_opens_sidebar:
  "(768 \<le> w' \<longrightarrow> isSidebarOpen (handleResize w' s) \<and> \<not> isMobile (handleResize w' s))
   \<and> (w < 768 \<and> 768 \<le> w' \<longrightarrow>
        isMobile (handleResize w s) \<and> isSidebarOpen (handleResize w' (handleResize w s)))
   \<and> fst (dispatch (Resize w') s) = handleResize w' s"
  by (simp add: handleResize_def Let_def)

theorem resize_to_wide_opens_sidebar_witness:
  "\<not> isSidebarOpen (initialState 500)
   \<and> isMobile (handleResize 500 (initialState 500))
   \<and> isSidebarOpen (handleResize 768 (handleResize 500 (initialState 500)))
   \<and> \<not> isMobile (handleResize 768 (initialState 500))"
  using resize_to_wide_opens_sidebar [of 768 "initialState 500" 500]
  by (simp add: initialState_def)

text \<open>
  C10. The resize handler never closes the sidebar: a resize below 768px changes nothing
  but \<open>isMobile\<close>, which it sets; an open sidebar stays open through every resize; and
  from a state with the sidebar open, the events that leave it closed are exactly the
  clicks bound to \<open>toggleSidebar\<close> (hamburger, close button, backdrop).
\<close>

theorem resize_never_closes_sidebar:
  "(w < 768 \<longrightarrow> handleResize w s = s\<lparr>isMobile := True\<rparr>)
   \<and> (isSidebarOpen s \<longrightarrow> isSidebarOpen (handleResize w s))
   \<and> (isSidebarOpen s \<longrightarrow>
        (\<not> isSidebarOpen (fst (dispatch e s)) \<longleftrightarrow> e \<in> {ClickHamburger, ClickClose, ClickBackdrop}))"
proof (intro conjI impI)
  assume "w < 768"
  then show "handleResize w s = s\<lparr>isMobile := True\<rparr>"
    by (simp add: handleResize_def Let_def)
next
  assume "isSidebarOpen s"
  then show "isSidebarOpen (handleResize w s)"
    by (simp add: handleResize_def Let_def)
next
  assume "isSidebarOpen s"
  then show "\<not> isSidebarOpen (fst (dispatch e s)) \<longleftrightarrow> e \<in> {ClickHamburger, ClickClose, ClickBackdrop}"
    by (cases e)
      (simp_all add: handleResize_def Let_def routeEffect_def toggleSidebar_def toggleSubmenu_def
         toggleNotifications_def toggleProfileMenu_def handleLogout_def)
qed

theorem resize_never_closes_sidebar_witness:
  "isSidebarOpen (handleResize 1024 (initialState 1024))
   \<and> isSidebarOpen (handleResize 500 (handleResize 1024 (initialState 1024)))
   \<and> isMobile (handleResize 500 (handleResize 1024 (initialState 1024)))
   \<and> \<not> isSidebarOpen (fst (dispatch ClickBackdrop (handleResize 500 (handleResize 1024 (initialState 1024)))))"
proof -
  let ?s = "handleResize 1024 (initialState 1024)"
  have wide: "isSidebarOpen ?s"
    by (simp add: handleResize_def initialState_def)
  have narrow: "(500::int) < 768" by simp
  from resize_never_closes_sidebar [of 500 ?s ClickBackdrop] wide narrow
  have "handleResize 500 ?s = ?s\<lparr>isMobile := True\<rparr>"
    and "\<not> isSidebarOpen (fst (dispatch ClickBackdrop ?s))"
    by simp_all
  moreover from resize_never_closes_sidebar [of 500 "handleResize 500 ?s" ClickBackdrop] wide narrow
  have "\<not> isSidebarOpen (fst (dispatch ClickBackdrop (handleResize 500 ?s)))"
    using calculation(1) by simp
  ultimately show ?thesis using wide by simp
qed

subsection \<open>Manual toggle\<close>

text \<open>
  C7. Toggling a section twice gives back its boolean value: the entry then holds the
  truth value the section had (an entry not yet in the map counts as false, as the
  renderer reads it), one toggle flips that value, every entry reads after two toggles as
  it did before, the rendered shell is the same, and a state whose entry was present is
  restored exactly.
\<close>

theorem toggleSubmenu_twice:
  "expandedMenus (toggleSubmenu n (toggleSubmenu n s)) = (expandedMenus s)(n \<mapsto> truthy (expandedMenus s n))
   \<and> truthy (expandedMenus (toggleSubmenu n s) n) = (\<not> truthy (expandedMenus s n))
   \<and> truthy (expandedMenus (toggleSubmenu n (toggleSubmenu n s)) k) = truthy (expandedMenus s k)
   \<and> renderShell location (toggleSubmenu n (toggleSubmenu n s)) = renderShell location s
   \<and> (expandedMenus s n = Some b \<longrightarrow> toggleSubmenu n (toggleSubmenu n s) = s)"
proof (intro conjI impI)
  show twice: "expandedMenus (toggleSubmenu n (toggleSubmenu n s)) = (expandedMenus s)(n \<mapsto> truthy (expandedMenus s n))"
    by (simp add: toggleSubmenu_def)
  show "truthy (expandedMenus (toggleSubmenu n s) n) = (\<not> truthy (expandedMenus s n))"
    by (simp add: toggleSubmenu_def)
  show same: "truthy (expandedMenus (toggleSubmenu n (toggleSubmenu n s)) k) = truthy (expandedMenus s k)" for k
    by (simp add: twice)
  have "renderItem p (expandedMenus (toggleSubmenu n (toggleSubmenu n s))) item
          = renderItem p (expandedMenus s) item" for p item
    unfolding renderItem_def same ..
  then show "renderShell location (toggleSubmenu n (toggleSubmenu n s)) = renderShell location s"
    by (simp add: renderShell_def toggleSubmenu_def)
next
  assume "expandedMenus s n = Some b"
  then have "(expandedMenus s)(n \<mapsto> truthy (expandedMenus s n)) = expandedMenus s"
    by (auto simp: fun_upd_idem_iff)
  then show "toggleSubmenu n (toggleSubmenu n s) = s"
    by (simp add: toggleSubmenu_def)
qed

theorem toggleSubmenu_twice_witness:
  "expandedMenus (initialState 1024) ''Catalog'' = Some True
   \<and> expandedMenus (toggleSubmenu ''Catalog'' (initialState 1024)) ''Catalog'' = Some False
   \<and> toggleSubmenu ''Catalog'' (toggleSubmenu ''Catalog'' (initialState 1024)) = initialState 1024"
proof -
  have present: "expandedMenus (initialState 1024) ''Catalog'' = Some True"
    by (simp add: initialState_def)
  have once: "expandedMenus (toggleSubmenu ''Catalog'' (initialState 1024)) ''Catalog'' = Some False"
    by (simp add: toggleSubmenu_def initialState_def)
  from present once toggleSubmenu_twice [of "''Catalog''" "initialState 1024" _ _ True]
  show ?thesis by blast
qed

subsection \<open>Sign-out\<close>

text \<open>
  C8. From every state (sidebar and popovers open or closed) the sign-out click issues
  exactly the call to the auth context's \<open>logout\<close> followed by the navigation to
  \<open>/business-login\<close>: one logout, one navigation, logout first; the component state
  is not changed.
\<close>

theorem handleLogout_effects:
  "dispatch ClickSignOut s = (s, [CallLogout, CallNavigate ''/business-login''])
   \<and> count_list (snd (handleLogout s)) CallLogout = 1
   \<and> filter (\<lambda>e. e \<noteq> CallLogout) (snd (handleLogout s)) = [CallNavigate ''/business-login'']
   \<and> hd (snd (handleLogout s)) = CallLogout
   \<and> fst (handleLogout s) = s"
  by (simp add: handleLogout_def)

theorem handleLogout_effects_witness:
  "dispatch ClickSignOut
      \<lparr>isSidebarOpen = True, isProfileMenuOpen = True, isNotificationsOpen = True,
        isMobile = False, expandedMenus = Map.empty\<rparr>
     = (\<lparr>isSidebarOpen = True, isProfileMenuOpen = True, isNotificationsOpen = True,
          isMobile = False, expandedMenus = Map.empty\<rparr>,
        [CallLogout, CallNavigate ''/business-login''])
   \<and> snd (dispatch ClickSignOut (initialState 500)) = [CallLogout, CallNavigate ''/business-login'']"
  using
    handleLogout_effects [of "\<lparr>isSidebarOpen = True, isProfileMenuOpen = True, isNotificationsOpen = True,
        isMobile = False, expandedMenus = Map.empty\<rparr>"]
    handleLogout_effects [of "initialState 500"]
  by simp

subsection \<open>The navigation table\<close>

text \<open>
  C9. Every entry of \<open>navigationItems\<close> has a path or a submenu and not both, and every
  entry of a submenu has a path and no submenu of its own.
\<close>

theorem navigationItems_invariant:
  "\<forall>item\<in>set navigationItems.
      (path item = None) \<noteq> (submenu item = None)
      \<and> (\<forall>subs. submenu item = Some subs \<longrightarrow>
            (\<forall>sub\<in>set subs. path sub \<noteq> None \<and> submenu sub = None))"
  unfolding navigationItems_def flat_def by simp

theorem navigationItems_invariant_witness:
  "path (NavigationItem ''Catalog'' None CubeIcon (Some
        [ flat ''Products'' ''/business/catalog/products'' CubeIcon,
          flat ''Categories'' ''/business/catalog/categories'' ListBulletIcon,
          flat ''Attributes'' ''/business/catalog/attributes'' AdjustmentsHorizontalIcon ])) = None
   \<and> path (flat ''Categories'' ''/business/catalog/categories'' ListBulletIcon) \<noteq> None
   \<and> submenu (flat ''Categories'' ''/business/catalog/categories'' ListBulletIcon) = None
   \<and> (path (flat ''Orders'' ''/business/orders'' ShoppingBagIcon) = None)
        \<noteq> (submenu (flat ''Orders'' ''/business/orders'' ShoppingBagIcon) = None)"
proof -
  let ?subs = "[ flat ''Products'' ''/business/catalog/products'' CubeIcon,
          flat ''Categories'' ''/business/catalog/categories'' ListBulletIcon,
          flat ''Attributes'' ''/business/catalog/attributes'' AdjustmentsHorizontalIcon ]"
  let ?catalog = "NavigationItem ''Catalog'' None CubeIcon (Some ?subs)"
  let ?categories = "flat ''Categories'' ''/business/catalog/categories'' ListBulletIcon"
  let ?orders = "flat ''Orders'' ''/business/orders'' ShoppingBagIcon"
  have catalog: "?catalog \<in> set navigationItems" and orders: "?orders \<in> set navigationItems"
    unfolding navigationItems_def by simp_all
  have sub: "submenu ?catalog = Some ?subs" and mem: "?categories \<in> set ?subs"
    by simp_all
  from navigationItems_invariant [THEN bspec, OF catalog]
  have "\<forall>sub\<in>set ?subs. path sub \<noteq> None \<and> submenu sub = None"
    using sub by (elim conjE allE [of _ ?subs] impE) assumption+
  from this [THEN bspec, OF mem]
  have categories: "path ?categories \<noteq> None \<and> submenu ?categories = None" .
  from navigationItems_invariant [THEN bspec, OF orders]
  have "(path ?orders = None) \<noteq> (submenu ?orders = None)" ..
  with categories show ?thesis by simp
qed

end
